theory Spec2Isabelle
  imports Complex_Main "HOL-Library.Sublist"
begin

section \<open>Shared data: chunks, errors, Python list indexing\<close>

text \<open>
  A chunk is the metadata dict built by \<open>TextChunker.chunk_text\<close> and stored by the vector
  store. \<open>total_chunks\<close> is \<open>None\<close> while the chunking loop runs and is filled in afterwards.
\<close>

record chunk =
  "text" :: string
  filename :: string
  file_type :: string
  chunk_index :: int
  total_chunks :: "int option"

datatype error =
  ValueError string
  | IndexError

text \<open>Python's \<open>xs[i]\<close>: a negative index counts from the end, out of range raises.\<close>

definition py_index :: "'a list \<Rightarrow> int \<Rightarrow> error + 'a" where
  "py_index xs i =
     (if 0 \<le> i \<and> i < int (length xs) then Inr (xs ! nat i)
      else if i < 0 \<and> - int (length xs) \<le> i then Inr (xs ! nat (int (length xs) + i))
      else Inl IndexError)"

text \<open>Python's \<open>xs[a:b]\<close>: both bounds are clamped, a negative bound counts from the end.\<close>

definition slice_bound :: "nat \<Rightarrow> int \<Rightarrow> nat" where
  "slice_bound n i = (if i < 0 then nat (max (int n + i) 0) else min (nat i) n)"

definition py_slice :: "'a list \<Rightarrow> int \<Rightarrow> int \<Rightarrow> 'a list" where
  "py_slice xs a b = drop (slice_bound (length xs) a) (take (slice_bound (length xs) b) xs)"

section \<open>vector\_store.py: FAISSVectorStore\<close>

text \<open>
  The FAISS index (\<open>IndexFlatL2\<close>) is the list of the vectors added so far, in insertion
  order; \<open>ntotal\<close> is its length. A vector is a value of the type \<open>'v\<close>. The two files
  \<open>faiss.index\<close> and \<open>metadata.pkl\<close> are the two \<open>disk\<close> fields, \<open>None\<close> until written.
\<close>

record 'v store =
  index :: "'v list"
  metadata :: "chunk list"
  disk_index :: "'v list option"
  disk_metadata :: "chunk list option"

definition ntotal :: "'v store \<Rightarrow> nat" where
  "ntotal st = length (index st)"

definition create_new_index :: "'v store \<Rightarrow> 'v store" where
  "create_new_index st = st\<lparr>index := [], metadata := []\<rparr>"

definition save :: "'v store \<Rightarrow> 'v store" where
  "save st = st\<lparr>disk_index := Some (index st), disk_metadata := Some (metadata st)\<rparr>"

text \<open>
  Every mutating method returns what it raised (if anything) together with the store
  as it is when the method is left.
\<close>

definition add_vectors :: "'v store \<Rightarrow> 'v list \<Rightarrow> chunk list \<Rightarrow> (error + unit) \<times> 'v store" where
  "add_vectors st embeddings metadata_list =
     (if length embeddings \<noteq> length metadata_list
      then (Inl (ValueError ''Number of embeddings must match metadata list length''), st)
      else
        let st1 = st\<lparr>index := index st @ embeddings\<rparr>;
            st2 = st1\<lparr>metadata := metadata st1 @ metadata_list\<rparr>
        in (Inr (), save st2))"

definition indices_to_keep :: "chunk list \<Rightarrow> string \<Rightarrow> nat list" where
  "indices_to_keep md fname =
     map fst (filter (\<lambda>(i, meta). filename meta \<noteq> fname) (zip [0..<length md] md))"

definition delete_by_filename :: "'v store \<Rightarrow> string \<Rightarrow> 'v store" where
  "delete_by_filename st fname =
     (let keep = indices_to_keep (metadata st) fname
      in if length keep = length (metadata st) then st
         else
           let new_metadata = map (\<lambda>i. metadata st ! i) keep;
               st1 = st\<lparr>metadata := new_metadata\<rparr>;
               st2 = create_new_index st1
           in save st2)"

definition clear :: "'v store \<Rightarrow> 'v store" where
  "clear st = save (create_new_index st)"

subsection \<open>search\<close>

record source =
  src_text :: string
  src_filename :: string
  src_file_type :: string
  src_chunk_index :: int
  score :: real

text \<open>
  \<open>filter_filenames and ...\<close>: the filter counts only when it is neither \<open>None\<close> nor empty.
\<close>

definition truthy :: "string list option \<Rightarrow> bool" where
  "truthy f = (case f of None \<Rightarrow> False | Some fs \<Rightarrow> fs \<noteq> [])"

definition filtered_out :: "string list option \<Rightarrow> chunk \<Rightarrow> bool" where
  "filtered_out f meta = (truthy f \<and> filename meta \<notin> set (case f of None \<Rightarrow> [] | Some fs \<Rightarrow> fs))"

text \<open>
  The loop over \<open>zip(distances[0], indices[0])\<close>, with \<open>results\<close> as accumulator; the distance
  is read as a real number.
\<close>

fun search_loop ::
  "chunk list \<Rightarrow> int \<Rightarrow> string list option \<Rightarrow> (real \<times> int) list \<Rightarrow> source list \<Rightarrow> error + source list"
where
  "search_loop md top_k f [] results = Inr results"
| "search_loop md top_k f ((distance, idx) # rest) results =
     (if idx = - 1 then search_loop md top_k f rest results
      else case py_index md idx of
        Inl e \<Rightarrow> Inl e
      | Inr meta \<Rightarrow>
          if filtered_out f meta then search_loop md top_k f rest results
          else
            let similarity_score = 1 - distance / 2;
                results' = results @
                  [\<lparr>src_text = text meta, src_filename = filename meta,
                    src_file_type = file_type meta, src_chunk_index = chunk_index meta,
                    score = similarity_score\<rparr>]
            in if int (length results') \<ge> top_k then Inr results'
               else search_loop md top_k f rest results')"

text \<open>
  \<open>faiss_search\<close> stands for \<open>index.search\<close> of the library: from the stored vectors, the
  query and \<open>k\<close> it gives the pairs of distance and position (-1 for an empty slot).
\<close>

definition search ::
  "('v list \<Rightarrow> 'v \<Rightarrow> int \<Rightarrow> (real \<times> int) list) \<Rightarrow> 'v store \<Rightarrow> 'v \<Rightarrow> int \<Rightarrow> string list option
     \<Rightarrow> error + source list"
where
  "search faiss_search st query_embedding top_k filter_filenames =
     (if ntotal st = 0 then Inr []
      else
        let found = faiss_search (index st) query_embedding (min (top_k * 2) (int (ntotal st)))
        in search_loop (metadata st) top_k filter_filenames found [])"

subsection \<open>Sequences of store operations\<close>

datatype 'v store_op =
  Add "'v list" "chunk list"
  | Delete string
  | Clear

fun apply_op :: "'v store \<Rightarrow> 'v store_op \<Rightarrow> 'v store" where
  "apply_op st (Add embeddings metadata_list) = snd (add_vectors st embeddings metadata_list)"
| "apply_op st (Delete fname) = delete_by_filename st fname"
| "apply_op st Clear = clear st"

text \<open>The stores seen after each operation of a sequence, in order.\<close>

fun states_after :: "'v store \<Rightarrow> 'v store_op list \<Rightarrow> 'v store list" where
  "states_after st [] = []"
| "states_after st (op # ops) = apply_op st op # states_after (apply_op st op) ops"

text \<open>
  The invariant of the store, for a relation \<open>R\<close> between a vector and the metadata entry
  it belongs to: index and metadata have the same length and are related position by
  position.
\<close>

definition store_inv :: "('v \<Rightarrow> chunk \<Rightarrow> bool) \<Rightarrow> 'v store \<Rightarrow> bool" where
  "store_inv R st = list_all2 R (index st) (metadata st)"

fun op_paired :: "('v \<Rightarrow> chunk \<Rightarrow> bool) \<Rightarrow> 'v store_op \<Rightarrow> bool" where
  "op_paired R (Add embeddings metadata_list) =
     (length embeddings = length metadata_list \<longrightarrow> list_all2 R embeddings metadata_list)"
| "op_paired R (Delete fname) = True"
| "op_paired R Clear = True"

section \<open>chunker.py: TextChunker\<close>

subsection \<open>Strings\<close>

text \<open>
  A character is a \<open>char\<close>, read as a code point below 256; \<open>is_space\<close> holds of the
  characters among them that Python's \<open>str.isspace\<close>, \<open>str.split\<close>, \<open>str.strip\<close> and the
  pattern \<open>\s\<close> treat as whitespace.
\<close>

definition is_space :: "char \<Rightarrow> bool" where
  "is_space c =
     (let n = (of_char c :: nat)
      in (9 \<le> n \<and> n \<le> 13) \<or> (28 \<le> n \<and> n \<le> 32) \<or> n = 133 \<or> n = 160)"

text \<open>\<open>re.sub(r'\s+', ' ', text)\<close>: every maximal run of whitespace becomes one space.\<close>

function collapse_ws :: "string \<Rightarrow> string" where
  "collapse_ws [] = []"
| "collapse_ws (c # cs) =
     (if is_space c then CHR '' '' # collapse_ws (dropWhile is_space cs)
      else c # collapse_ws cs)"
  by pat_completeness auto
termination
  by (relation "measure length") (auto simp: length_dropWhile_le le_imp_less_Suc)

definition strip :: "string \<Rightarrow> string" where
  "strip s = rev (dropWhile is_space (rev (dropWhile is_space s)))"

definition clean_text :: "string \<Rightarrow> string" where
  "clean_text txt = strip (collapse_ws txt)"

text \<open>
  \<open>str.split()\<close> without argument: the maximal runs of non-whitespace, in order. \<open>cur\<close> is
  the word being read.
\<close>

fun split_from :: "string \<Rightarrow> string \<Rightarrow> string list" where
  "split_from cur [] = (if cur = [] then [] else [cur])"
| "split_from cur (c # cs) =
     (if is_space c then (if cur = [] then split_from [] cs else cur # split_from [] cs)
      else split_from (cur @ [c]) cs)"

definition split_ws :: "string \<Rightarrow> string list" where
  "split_ws s = split_from [] s"

text \<open>\<open>sep.join(parts)\<close>.\<close>

fun str_join :: "string \<Rightarrow> string list \<Rightarrow> string" where
  "str_join sep [] = []"
| "str_join sep [p] = p"
| "str_join sep (p # q # ps) = p @ sep @ str_join sep (q # ps)"

subsection \<open>The chunker\<close>

record chunker =
  chunk_size :: int
  overlap :: int
  words_per_chunk :: int
  words_overlap :: int

text \<open>
  \<open>int(n * 0.75)\<close>: three quarters of \<open>n\<close>, truncated towards zero (the product is exact in
  double precision for every \<open>n\<close> of magnitude below \<open>2 ^ 51\<close>).
\<close>

definition int_three_quarters :: "int \<Rightarrow> int" where
  "int_three_quarters n = (if 0 \<le> n then (3 * n) div 4 else - ((3 * (- n)) div 4))"

text \<open>\<open>TextChunker.__init__\<close>: no argument is checked, every pair of integers is accepted.\<close>

definition TextChunker :: "int \<Rightarrow> int \<Rightarrow> chunker" where
  "TextChunker size_arg overlap_arg =
     \<lparr>chunk_size = size_arg, overlap = overlap_arg,
      words_per_chunk = int_three_quarters size_arg,
      words_overlap = int_three_quarters overlap_arg\<rparr>"

text \<open>
  The \<open>while\<close> loop of \<open>chunk_text\<close>. It need not end, so its result is an option: \<open>None\<close>
  is the loop that never leaves.
\<close>

partial_function (option) chunk_loop ::
  "chunker \<Rightarrow> string list \<Rightarrow> string \<Rightarrow> string \<Rightarrow> chunk list \<Rightarrow> int \<Rightarrow> int \<Rightarrow> chunk list option"
where
  "chunk_loop c words fname ftype chunks chunk_idx start_idx =
     (if start_idx < int (length words) then
        let end_idx = start_idx + words_per_chunk c;
            chunk_words = py_slice words start_idx end_idx;
            chunks' = chunks @
              [\<lparr>text = str_join '' '' chunk_words, filename = fname, file_type = ftype,
                chunk_index = chunk_idx, total_chunks = None\<rparr>];
            start_idx' = start_idx + (words_per_chunk c - words_overlap c);
            chunk_idx' = chunk_idx + 1
        in if end_idx \<ge> int (length words) then Some chunks'
           else chunk_loop c words fname ftype chunks' chunk_idx' start_idx'
      else Some chunks)"

definition chunk_text :: "chunker \<Rightarrow> string \<Rightarrow> string \<Rightarrow> string \<Rightarrow> chunk list option" where
  "chunk_text c txt fname ftype =
     (let cleaned = clean_text txt;
          words = split_ws cleaned
      in if int (length words) \<le> words_per_chunk c then
           Some [\<lparr>text = cleaned, filename = fname, file_type = ftype,
                  chunk_index = 0, total_chunks = Some 1\<rparr>]
         else case chunk_loop c words fname ftype [] 0 0 of
           None \<Rightarrow> None
         | Some chunks \<Rightarrow>
             Some (map (\<lambda>ch. ch\<lparr>total_chunks := Some (int (length chunks))\<rparr>) chunks))"

text \<open>
  The word window at offset \<open>start\<close>, the step between two windows, the chunk the loop
  appends for the window at \<open>start\<close>, and the \<open>i\<close>-th chunk of \<open>n\<close> once \<open>total_chunks\<close> is
  filled in.
\<close>

definition window :: "chunker \<Rightarrow> string list \<Rightarrow> nat \<Rightarrow> string list" where
  "window c words start = take (nat (words_per_chunk c)) (drop start words)"

definition step :: "chunker \<Rightarrow> int" where
  "step c = words_per_chunk c - words_overlap c"

definition window_chunk :: "chunker \<Rightarrow> string list \<Rightarrow> string \<Rightarrow> string \<Rightarrow> int \<Rightarrow> nat \<Rightarrow> chunk" where
  "window_chunk c ws fname ftype i start =
     \<lparr>text = str_join '' '' (window c ws start), filename = fname, file_type = ftype,
      chunk_index = i, total_chunks = None\<rparr>"

definition final_chunk :: "chunker \<Rightarrow> string list \<Rightarrow> string \<Rightarrow> string \<Rightarrow> nat \<Rightarrow> nat \<Rightarrow> chunk" where
  "final_chunk c ws fname ftype n i =
     \<lparr>text = str_join '' '' (window c ws (i * nat (step c))), filename = fname, file_type = ftype,
      chunk_index = int i, total_chunks = Some (int n)\<rparr>"

text \<open>A word as \<open>str.split\<close> gives it: not empty, no whitespace inside.\<close>

definition word_ok :: "string \<Rightarrow> bool" where
  "word_ok w = (w \<noteq> [] \<and> (\<forall>ch \<in> set w. \<not> is_space ch))"

section \<open>rag\_pipeline.py: RAGPipeline\<close>

text \<open>\<open>str(n)\<close> of an integer: its decimal digits, with a minus sign when negative.\<close>

fun str_nat :: "nat \<Rightarrow> string" where
  "str_nat n =
     (if n < 10 then [''0123456789'' ! n] else str_nat (n div 10) @ [''0123456789'' ! (n mod 10)])"

declare str_nat.simps [simp del]

definition str_int :: "int \<Rightarrow> string" where
  "str_int i = (if i < 0 then CHR ''-'' # str_nat (nat (- i)) else str_nat (nat i))"

definition newline :: string where
  "newline = [CHR 0x0A]"

definition PROMPT_TEMPLATE :: "string \<Rightarrow> string \<Rightarrow> string" where
  "PROMPT_TEMPLATE context_str question =
     ''Context information from documents:'' @ newline @ ''---'' @ newline @ context_str @ newline
     @ ''---'' @ newline @ newline @ ''Question: '' @ question @ newline @ newline
     @ ''Answer based on the context above:''"

definition format_context :: "source list \<Rightarrow> string" where
  "format_context chunks =
     str_join newline
       (map (\<lambda>(i, ch).
              ''[Source '' @ str_int (int i) @ '': '' @ src_filename ch @ '', chunk ''
              @ str_int (src_chunk_index ch) @ '']'' @ newline @ src_text ch @ newline)
            (zip [1..<Suc (length chunks)] chunks))"

definition fallback_answer :: "string \<Rightarrow> string" where
  "fallback_answer prompt =
     ''LLM service unavailable. Showing the retrieved context instead:'' @ newline @ newline
     @ prompt @ newline @ newline
     @ ''Start Ollama with `ollama serve` and ensure the `llama3.2` model is installed.''"

text \<open>
  What \<open>requests.post\<close> to the generation service comes to: a response with its status
  code and the \<open>response\<close> field of its JSON body (when it has one), or a
  \<open>RequestException\<close> (connection failure, timeout).
\<close>

datatype llm_reply =
  Response int "string option"
  | RequestException

text \<open>
  \<open>_generate_answer\<close> gives the answer and the prompts it has posted to the service.
\<close>

definition generate_answer :: "(string \<Rightarrow> llm_reply) \<Rightarrow> string \<Rightarrow> string \<times> string list" where
  "generate_answer llm prompt =
     (case llm prompt of
        Response status_code body \<Rightarrow>
          if status_code = 200
          then (strip (case body of None \<Rightarrow> [] | Some r \<Rightarrow> r), [prompt])
          else (fallback_answer prompt, [prompt])
      | RequestException \<Rightarrow> (fallback_answer prompt, [prompt]))"

record query_result =
  answer :: string
  sources :: "source list"

text \<open>
  \<open>query\<close> gives its result, or the error it raised, and the prompts posted to the
  generation service on the way. \<open>embed_query\<close> is the embedder.
\<close>

definition query ::
  "(string \<Rightarrow> 'v) \<Rightarrow> ('v list \<Rightarrow> 'v \<Rightarrow> int \<Rightarrow> (real \<times> int) list) \<Rightarrow> (string \<Rightarrow> llm_reply) \<Rightarrow> 'v store
     \<Rightarrow> string \<Rightarrow> int \<Rightarrow> string list option \<Rightarrow> (error + query_result) \<times> string list"
where
  "query embed_query faiss_search llm st question top_k active_files =
     (let query_embedding = embed_query question
      in case search faiss_search st query_embedding top_k active_files of
           Inl e \<Rightarrow> (Inl e, [])
         | Inr retrieved_chunks \<Rightarrow>
             if retrieved_chunks = [] then
               (Inr \<lparr>answer = ''No relevant information found in the indexed documents.'',
                     sources = []\<rparr>, [])
             else
               let context_str = format_context retrieved_chunks;
                   prompt = PROMPT_TEMPLATE context_str question;
                   (ans, posted) = generate_answer llm prompt
               in (Inr \<lparr>answer = ans, sources = retrieved_chunks\<rparr>, posted))"

text \<open>The generation call has failed: no response, or a response outside 2xx.\<close>

definition llm_failed :: "llm_reply \<Rightarrow> bool" where
  "llm_failed r =
     (case r of Response status_code body \<Rightarrow> \<not> (200 \<le> status_code \<and> status_code < 300)
      | RequestException \<Rightarrow> True)"

section \<open>upload.py: upload\_file\<close>

datatype http_response =
  HTTPException int string
  | UploadResponse string int string

text \<open>
  The state an upload works on: the vector store and the files of the uploads
  directory (name to content).
\<close>

record 'v app_state =
  vector_store :: "'v store"
  uploads :: "string \<rightharpoonup> string"

text \<open>
  The library and the outside world, as the upload sees them: \<open>Path(name).suffix\<close>,
  \<open>str.lower\<close>, the listing of the allowed extensions in the error message (a set, joined
  in its iteration order), the write of the uploaded file (the exception's message if it
  raised, and the files afterwards), \<open>FileProcessor.extract_text\<close> on a saved file and
  \<open>embedder.embed_text\<close> (each the text of the exception, or the result).
\<close>

record 'v world =
  path_suffix :: "string \<Rightarrow> string"
  str_lower :: "string \<Rightarrow> string"
  allowed_listing :: string
  write_file :: "(string \<rightharpoonup> string) \<Rightarrow> string \<Rightarrow> string \<Rightarrow> string option \<times> (string \<rightharpoonup> string)"
  extract_text :: "(string \<rightharpoonup> string) \<Rightarrow> string \<Rightarrow> string + string"
  embed_text :: "string list \<Rightarrow> string + 'v list"

definition allowed_extensions :: "string list" where
  "allowed_extensions = [''.pdf'', ''.txt'', ''.md'', ''.markdown'', ''.docx'']"

fun error_str :: "error \<Rightarrow> string" where
  "error_str (ValueError msg) = msg"
| "error_str IndexError = ''list index out of range''"

text \<open>
  \<open>upload_file\<close> gives the response (or the \<open>HTTPException\<close> raised) and the state it leaves;
  \<open>None\<close> when the chunker does not return.
\<close>

definition upload_file ::
  "'v world \<Rightarrow> chunker \<Rightarrow> 'v app_state \<Rightarrow> string \<Rightarrow> string \<Rightarrow> (http_response \<times> 'v app_state) option"
where
  "upload_file w c st fname content =
     (let suffix = path_suffix w fname
      in if str_lower w suffix \<notin> set allowed_extensions then
           Some (HTTPException 400 (''Unsupported file type. Allowed: '' @ allowed_listing w), st)
         else
           (case write_file w (uploads st) fname content of
              (Some e, files) \<Rightarrow>
                Some (HTTPException 500 (''Failed to save file: '' @ e), st\<lparr>uploads := files\<rparr>)
            | (None, files) \<Rightarrow>
                (let st1 = st\<lparr>uploads := files\<rparr>
                 in (case extract_text w files fname of
                       Inl e \<Rightarrow> Some (HTTPException 500 (''Failed to extract text: '' @ e), st1)
                     | Inr txt \<Rightarrow>
                         (if strip txt = [] then
                            Some (HTTPException 400 ''No text content found in file'', st1)
                          else
                            (let ftype = dropWhile (\<lambda>ch. ch = CHR ''.'') suffix
                             in (case chunk_text c txt fname ftype of
                                   None \<Rightarrow> None
                                 | Some chunks \<Rightarrow>
                                     (case embed_text w (map text chunks) of
                                        Inl e \<Rightarrow>
                                          Some (HTTPException 500 (''Failed to embed text: '' @ e), st1)
                                      | Inr embeddings \<Rightarrow>
                                          (case add_vectors (vector_store st1) embeddings chunks of
                                             (Inl e, vs) \<Rightarrow>
                                               Some (HTTPException 500
                                                       (''Failed to store vectors: '' @ error_str e),
                                                     st1\<lparr>vector_store := vs\<rparr>)
                                           | (Inr u, vs) \<Rightarrow>
                                               Some (UploadResponse fname (int (length chunks)) ftype,
                                                     st1\<lparr>vector_store := vs\<rparr>))))))))))"

definition client_error :: "http_response \<Rightarrow> bool" where
  "client_error r = (case r of HTTPException code detail \<Rightarrow> 400 \<le> code \<and> code < 500
                     | UploadResponse f n t \<Rightarrow> False)"

section \<open>Example data\<close>

text \<open>
  A small world to run the definitions in: vectors are lists of integers, the embedder
  counts characters and spaces, and the index search is exact (squared Euclidean
  distance, nearest first).
\<close>

definition toy_embed :: "string \<Rightarrow> int list" where
  "toy_embed s = [int (length s), int (length (filter is_space s))]"

definition embedded :: "int list \<Rightarrow> chunk \<Rightarrow> bool" where
  "embedded v ch = (v = toy_embed (text ch))"

definition sq_dist :: "int list \<Rightarrow> int list \<Rightarrow> real" where
  "sq_dist v q = real_of_int (sum_list (map2 (\<lambda>a b. (a - b) * (a - b)) v q))"

definition flat_search :: "int list list \<Rightarrow> int list \<Rightarrow> int \<Rightarrow> (real \<times> int) list" where
  "flat_search vs q k =
     take (nat k) (sort_key fst (zip (map (\<lambda>v. sq_dist v q) vs) (map int [0..<length vs])))"

definition chunk_a :: chunk where
  "chunk_a = \<lparr>text = ''alpha beta'', filename = ''a.txt'', file_type = ''txt'',
              chunk_index = 0, total_chunks = Some 1\<rparr>"

definition chunk_b :: chunk where
  "chunk_b = \<lparr>text = ''gamma'', filename = ''b.txt'', file_type = ''txt'',
              chunk_index = 0, total_chunks = Some 1\<rparr>"

definition store_ab :: "int list store" where
  "store_ab = \<lparr>index = [[10, 1], [5, 0]], metadata = [chunk_a, chunk_b],
               disk_index = Some [[10, 1], [5, 0]], disk_metadata = Some [chunk_a, chunk_b]\<rparr>"

definition example_ops :: "int list store_op list" where
  "example_ops =
     [Add [[5, 0]] [chunk_b], Add [] [chunk_a], Delete ''c.txt'', Delete ''a.txt'', Clear]"

definition no_llm :: "string \<Rightarrow> llm_reply" where
  "no_llm prompt = RequestException"

definition example_sources :: "source list" where
  "example_sources =
     [\<lparr>src_text = ''gamma'', src_filename = ''b.txt'', src_file_type = ''txt'',
       src_chunk_index = 0, score = 1\<rparr>,
      \<lparr>src_text = ''alpha beta'', src_filename = ''a.txt'', src_file_type = ''txt'',
       src_chunk_index = 0, score = - 12\<rparr>]"

definition example_prompt :: string where
  "example_prompt = PROMPT_TEMPLATE (format_context example_sources) ''gamma''"

text \<open>
  A world for uploads: the suffix is what follows the last dot of the name, lowering
  touches the ASCII capitals, a write always succeeds and stores the content under the
  name, and every file is read as plain text.
\<close>

definition last_dot_suffix :: "string \<Rightarrow> string" where
  "last_dot_suffix name =
     (if CHR ''.'' \<in> set name then CHR ''.'' # rev (takeWhile (\<lambda>ch. ch \<noteq> CHR ''.'') (rev name))
      else [])"

definition ascii_lower :: "string \<Rightarrow> string" where
  "ascii_lower s =
     map (\<lambda>ch. if 65 \<le> (of_char ch :: nat) \<and> (of_char ch :: nat) \<le> 90
                then char_of ((of_char ch :: nat) + 32) else ch) s"

definition disk_world :: "int list world" where
  "disk_world =
     \<lparr>path_suffix = last_dot_suffix,
      str_lower = ascii_lower,
      allowed_listing = ''.pdf, .txt, .md, .markdown, .docx'',
      write_file = (\<lambda>files name content. (None, files(name \<mapsto> content))),
      extract_text = (\<lambda>files name. case files name of None \<Rightarrow> Inl ''No such file''
                                     | Some content \<Rightarrow> Inr content),
      embed_text = (\<lambda>texts. Inr (map toy_embed texts))\<rparr>"

definition default_chunker :: chunker where
  "default_chunker = TextChunker 500 100"

definition app_ab :: "int list app_state" where
  "app_ab = \<lparr>vector_store = store_ab, uploads = Map.empty\<rparr>"

section \<open>The vector store: facts\<close>

subsection \<open>Auxiliary facts\<close>

lemma filtered_out_empty: "filtered_out (Some []) m = filtered_out None m"
  by (simp add: filtered_out_def truthy_def)

lemma search_loop_empty_filter:
  "search_loop md k (Some []) found acc = search_loop md k None found acc"
proof (induction found arbitrary: acc)
  case Nil
  show ?case by simp
next
  case (Cons p found)
  obtain d i where p: "p = (d, i)" by (cases p)
  show ?case unfolding p
    by (simp add: Cons.IH filtered_out_empty Let_def split: sum.splits)
qed

lemma snd_filter_zip:
  "length xs = length ys \<Longrightarrow>
   map snd (filter (\<lambda>(i, m). Q m) (zip xs ys)) = filter Q ys"
  by (induction xs ys rule: list_induct2) auto

lemma length_indices_to_keep:
  "length (indices_to_keep md fname) = length (filter (\<lambda>m. filename m \<noteq> fname) md)"
proof -
  have "length (indices_to_keep md fname)
      = length (map snd (filter (\<lambda>(i, m). filename m \<noteq> fname) (zip [0..<length md] md)))"
    by (simp add: indices_to_keep_def)
  also have "\<dots> = length (filter (\<lambda>m. filename m \<noteq> fname) md)"
    by (subst snd_filter_zip) simp_all
  finally show ?thesis .
qed

lemma length_filter_eq_iff:
  "length (filter P xs) = length xs \<longleftrightarrow> (\<forall>x \<in> set xs. P x)"
proof (induction xs)
  case Nil
  show ?case by simp
next
  case (Cons x xs)
  have "length (filter P xs) \<le> length xs" by simp
  then have "length (filter P xs) \<noteq> Suc (length xs)" by linarith
  with Cons show ?case by auto
qed

lemma keep_all_iff:
  "length (indices_to_keep md fname) = length md \<longleftrightarrow> fname \<notin> filename ` set md"
  by (auto simp: length_indices_to_keep length_filter_eq_iff)

lemma delete_absent:
  "fname \<notin> filename ` set (metadata st) \<Longrightarrow> delete_by_filename st fname = st"
  using keep_all_iff [of "metadata st" fname] by (simp add: delete_by_filename_def Let_def)

text \<open>
  When the file is there, \<open>_create_new_index\<close> resets the metadata together with the index,
  after the surviving entries have been assigned: nothing is left.
\<close>

lemma delete_present:
  "fname \<in> filename ` set (metadata st) \<Longrightarrow>
   delete_by_filename st fname =
     st\<lparr>index := [], metadata := [], disk_index := Some [], disk_metadata := Some []\<rparr>"
  using keep_all_iff [of "metadata st" fname]
  by (simp add: delete_by_filename_def Let_def create_new_index_def save_def)

lemma store_inv_add:
  assumes "store_inv R st" and "op_paired R (Add es ms)"
  shows "store_inv R (snd (add_vectors st es ms))"
proof (cases "length es = length ms")
  case True
  with assms have "list_all2 R (index st @ es) (metadata st @ ms)"
    by (simp add: store_inv_def list_all2_appendI)
  with True show ?thesis by (simp add: add_vectors_def Let_def save_def store_inv_def)
next
  case False
  with assms show ?thesis by (simp add: add_vectors_def)
qed

lemma store_inv_delete: "store_inv R st \<Longrightarrow> store_inv R (delete_by_filename st fname)"
  by (cases "fname \<in> filename ` set (metadata st)")
     (simp_all add: delete_absent delete_present store_inv_def)

lemma store_inv_clear: "store_inv R (clear st)"
  by (simp add: clear_def create_new_index_def save_def store_inv_def)

lemma store_inv_apply_op:
  "store_inv R st \<Longrightarrow> op_paired R op \<Longrightarrow> store_inv R (apply_op st op)"
  by (cases op) (simp_all add: store_inv_add store_inv_delete store_inv_clear)

lemma store_inv_length: "store_inv R st \<Longrightarrow> length (index st) = length (metadata st)"
  by (simp add: store_inv_def list_all2_lengthD)

lemma store_inv_nth:
  "store_inv R st \<Longrightarrow> i < length (metadata st) \<Longrightarrow> R (index st ! i) (metadata st ! i)"
  by (simp add: store_inv_def list_all2_conv_all_nth)

lemma embedded_store_ab: "store_inv embedded store_ab"
  by (simp add: store_inv_def store_ab_def embedded_def toy_embed_def chunk_a_def chunk_b_def
      is_space_def)

lemma example_ops_paired: "\<forall>op \<in> set example_ops. op_paired embedded op"
  by (simp add: example_ops_def embedded_def toy_embed_def chunk_b_def is_space_def)

lemma example_ops_states:
  "map (\<lambda>s. (index s, map filename (metadata s))) (states_after store_ab example_ops) =
     [([[10, 1], [5, 0], [5, 0]], [''a.txt'', ''b.txt'', ''b.txt'']),
      ([[10, 1], [5, 0], [5, 0]], [''a.txt'', ''b.txt'', ''b.txt'']),
      ([[10, 1], [5, 0], [5, 0]], [''a.txt'', ''b.txt'', ''b.txt'']),
      ([], []), ([], [])]"
  by (simp add: example_ops_def store_ab_def add_vectors_def delete_by_filename_def
      indices_to_keep_def clear_def save_def create_new_index_def chunk_a_def chunk_b_def Let_def)

lemma search_store_ab:
  "search flat_search store_ab [5, 0] 5 None =
     Inr [\<lparr>src_text = ''gamma'', src_filename = ''b.txt'', src_file_type = ''txt'',
           src_chunk_index = 0, score = 1\<rparr>,
          \<lparr>src_text = ''alpha beta'', src_filename = ''a.txt'', src_file_type = ''txt'',
           src_chunk_index = 0, score = - 12\<rparr>]"
  by (simp add: search_def ntotal_def store_ab_def flat_search_def sq_dist_def py_index_def
      filtered_out_def truthy_def chunk_a_def chunk_b_def Let_def)

lemma a_in_store_ab: "''a.txt'' \<in> filename ` set (metadata store_ab)"
  by (simp add: store_ab_def chunk_a_def)

lemma c_not_in_store_ab: "''c.txt'' \<notin> filename ` set (metadata store_ab)"
  by (simp add: store_ab_def chunk_a_def chunk_b_def)

subsection \<open>The invariant of the store\<close>

text \<open>
  C1. Start from a store whose index and metadata are related position by position by
  \<open>R\<close>, and run any sequence of \<open>add_vectors\<close>, \<open>delete_by_filename\<close> and \<open>clear\<close> in which
  every \<open>add_vectors\<close> of as many vectors as entries passes them \<open>R\<close>-related pairwise.
  Then after each operation the index holds as many vectors as there are metadata
  entries, and the i-th vector is \<open>R\<close>-related to the i-th entry. (An \<open>add_vectors\<close> with
  lists of different lengths raises and changes nothing.)
\<close>

theorem store_invariant_after_each_operation:
  assumes "store_inv R st" and "\<forall>op \<in> set ops. op_paired R op"
  shows "\<forall>s \<in> set (states_after st ops).
           length (index s) = length (metadata s) \<and>
           (\<forall>i < length (metadata s). R (index s ! i) (metadata s ! i))"
  using assms
proof (induction ops arbitrary: st)
  case Nil
  show ?case by simp
next
  case (Cons op ops)
  have step: "store_inv R (apply_op st op)"
    using Cons.prems by (simp add: store_inv_apply_op)
  have rest: "\<forall>op \<in> set ops. op_paired R op"
    using Cons.prems by simp
  show ?case
    using Cons.IH [OF step rest] step
    by (simp add: store_inv_length store_inv_nth)
qed

theorem store_invariant_after_each_operation_witness:
  "store_inv embedded store_ab \<and>
   list_all (op_paired embedded) example_ops \<and>
   map (length \<circ> index) (states_after store_ab example_ops) = [3, 3, 3, 0, 0] \<and>
   map (length \<circ> metadata) (states_after store_ab example_ops) = [3, 3, 3, 0, 0] \<and>
   list_all (\<lambda>s. list_all2 embedded (index s) (metadata s)) (states_after store_ab example_ops)"
proof -
  note inv = store_invariant_after_each_operation [OF embedded_store_ab example_ops_paired]
  have lens: "map (length \<circ> index) (states_after store_ab example_ops) = [3, 3, 3, 0, 0]"
    "map (length \<circ> metadata) (states_after store_ab example_ops) = [3, 3, 3, 0, 0]"
    using arg_cong [OF example_ops_states, of "map (length \<circ> fst)"]
      arg_cong [OF example_ops_states, of "map (length \<circ> snd)"]
    by (simp_all add: comp_def)
  have "list_all (\<lambda>s. list_all2 embedded (index s) (metadata s)) (states_after store_ab example_ops)"
    using inv by (simp add: list_all_iff list_all2_conv_all_nth)
  with lens embedded_store_ab example_ops_paired show ?thesis
    by (simp add: list_all_iff)
qed

subsection \<open>add\_vectors with lists of different lengths\<close>

text \<open>
  C7. \<open>add_vectors\<close> called with a number of embeddings different from the number of
  metadata entries raises (a \<open>ValueError\<close>, the dimension-mismatch error of this store)
  and leaves the store as it was: index, metadata and both files.
\<close>

theorem add_vectors_length_mismatch:
  "length embeddings \<noteq> length metadata_list \<Longrightarrow>
   add_vectors st embeddings metadata_list =
     (Inl (ValueError ''Number of embeddings must match metadata list length''), st)"
  by (simp add: add_vectors_def)

theorem add_vectors_length_mismatch_witness:
  "length [[1, 1 :: int]] \<noteq> length ([] :: chunk list) \<and>
   add_vectors store_ab [[1, 1]] [] =
     (Inl (ValueError ''Number of embeddings must match metadata list length''), store_ab)"
  using add_vectors_length_mismatch [of "[[1, 1]]" "[]" store_ab] by simp

subsection \<open>search with an empty filter\<close>

text \<open>
  C9. \<open>search\<close> with the empty list as \<open>filter_filenames\<close> filters nothing: it gives the same
  result as \<open>search\<close> without a filter, for every index search, store, query and \<open>top_k\<close>.
\<close>

theorem search_empty_filter_is_no_filter:
  "search faiss_search st query_embedding top_k (Some []) =
   search faiss_search st query_embedding top_k None"
  by (simp add: search_def search_loop_empty_filter)

theorem search_empty_filter_is_no_filter_witness:
  "search flat_search store_ab [5, 0] 5 (Some []) =
     Inr [\<lparr>src_text = ''gamma'', src_filename = ''b.txt'', src_file_type = ''txt'',
           src_chunk_index = 0, score = 1\<rparr>,
          \<lparr>src_text = ''alpha beta'', src_filename = ''a.txt'', src_file_type = ''txt'',
           src_chunk_index = 0, score = - 12\<rparr>]"
  using search_empty_filter_is_no_filter [of flat_search store_ab "[5, 0]" 5] search_store_ab
  by simp

subsection \<open>delete\_by\_filename\<close>

text \<open>
  C10. \<open>delete_by_filename\<close> of a filename that no metadata entry carries leaves the store
  as it was: index, metadata and both files (it returns before any rebuild or save).
\<close>

theorem delete_by_filename_absent_unchanged:
  "fname \<notin> filename ` set (metadata st) \<Longrightarrow> delete_by_filename st fname = st"
  by (rule delete_absent)

theorem delete_by_filename_absent_unchanged_witness:
  "''c.txt'' \<notin> filename ` set (metadata store_ab) \<and>
   delete_by_filename store_ab ''c.txt'' = store_ab"
  using delete_by_filename_absent_unchanged [OF c_not_in_store_ab] c_not_in_store_ab by simp

text \<open>
  C2, as the code has it. \<open>delete_by_filename\<close> of a filename that is in the store leaves
  no metadata entry of that file, replaces the index by a new empty one to which no
  vector is added again, and writes both files; afterwards every search gives the
  empty result.
\<close>

theorem delete_by_filename_present_empties_index:
  assumes "fname \<in> filename ` set (metadata st)"
  shows "fname \<notin> filename ` set (metadata (delete_by_filename st fname)) \<and>
         index (delete_by_filename st fname) = [] \<and>
         disk_index (delete_by_filename st fname) = Some (index (delete_by_filename st fname)) \<and>
         disk_metadata (delete_by_filename st fname)
           = Some (metadata (delete_by_filename st fname)) \<and>
         search faiss_search (delete_by_filename st fname) query_embedding top_k filter_filenames
           = Inr []"
  by (simp add: delete_present [OF assms] search_def ntotal_def)

theorem delete_by_filename_present_empties_index_witness:
  "''a.txt'' \<in> filename ` set (metadata store_ab) \<and>
   index (delete_by_filename store_ab ''a.txt'') = [] \<and>
   disk_index (delete_by_filename store_ab ''a.txt'') = Some [] \<and>
   search flat_search (delete_by_filename store_ab ''a.txt'') [5, 0] 5 None = Inr []"
  using delete_by_filename_present_empties_index [OF a_in_store_ab, of flat_search "[5, 0]" 5 None]
    a_in_store_ab
  by simp

text \<open>
  C2 as stated fails: in a store with one entry of \<open>a.txt\<close> and one of \<open>b.txt\<close>, both found
  by a search, deleting \<open>a.txt\<close> leaves an empty index, and the same search finds nothing,
  the entry of \<open>b.txt\<close> included.
\<close>

theorem delete_by_filename_survivor_not_searchable:
  "chunk_b \<in> set (metadata store_ab) \<and> filename chunk_b \<noteq> ''a.txt'' \<and>
   ''a.txt'' \<in> filename ` set (metadata store_ab) \<and>
   search flat_search store_ab [5, 0] 5 None =
     Inr [\<lparr>src_text = ''gamma'', src_filename = ''b.txt'', src_file_type = ''txt'',
           src_chunk_index = 0, score = 1\<rparr>,
          \<lparr>src_text = ''alpha beta'', src_filename = ''a.txt'', src_file_type = ''txt'',
           src_chunk_index = 0, score = - 12\<rparr>] \<and>
   index (delete_by_filename store_ab ''a.txt'') = [] \<and>
   search flat_search (delete_by_filename store_ab ''a.txt'') [5, 0] 5 None = Inr []"
proof -
  have "chunk_b \<in> set (metadata store_ab)" "filename chunk_b \<noteq> ''a.txt''"
    by (simp_all add: store_ab_def chunk_b_def)
  moreover have "index (delete_by_filename store_ab ''a.txt'') = []"
    by (simp add: delete_present [OF a_in_store_ab])
  moreover from this
  have "search flat_search (delete_by_filename store_ab ''a.txt'') [5, 0] 5 None = Inr []"
    by (simp add: search_def ntotal_def)
  ultimately show ?thesis
    using search_store_ab a_in_store_ab by simp
qed

section \<open>The pipeline: facts\<close>

subsection \<open>Auxiliary facts\<close>

lemma generate_answer_posted: "snd (generate_answer llm prompt) = [prompt]"
  by (simp add: generate_answer_def split: llm_reply.splits)

lemma generate_answer_failed:
  "llm_failed (llm prompt) \<Longrightarrow> fst (generate_answer llm prompt) = fallback_answer prompt"
  by (auto simp: generate_answer_def llm_failed_def split: llm_reply.splits)

lemma query_no_chunks:
  "search fs st (eq question) top_k af = Inr [] \<Longrightarrow>
   query eq fs llm st question top_k af =
     (Inr \<lparr>answer = ''No relevant information found in the indexed documents.'', sources = []\<rparr>, [])"
  by (simp add: query_def)

lemma query_error:
  "search fs st (eq question) top_k af = Inl e \<Longrightarrow>
   query eq fs llm st question top_k af = (Inl e, [])"
  by (simp add: query_def)

lemma query_chunks:
  "search fs st (eq question) top_k af = Inr cs \<Longrightarrow> cs \<noteq> [] \<Longrightarrow>
   query eq fs llm st question top_k af =
     (Inr \<lparr>answer = fst (generate_answer llm (PROMPT_TEMPLATE (format_context cs) question)),
           sources = cs\<rparr>,
      [PROMPT_TEMPLATE (format_context cs) question])"
  using generate_answer_posted [of llm "PROMPT_TEMPLATE (format_context cs) question"]
  by (cases "generate_answer llm (PROMPT_TEMPLATE (format_context cs) question)")
     (simp add: query_def Let_def)

lemma fallback_prefix: "prefix ''LLM service unavailable.'' (fallback_answer prompt)"
  by (simp add: fallback_answer_def)

lemma fallback_sublist: "sublist prompt (fallback_answer prompt)"
proof -
  have "fallback_answer prompt =
      (''LLM service unavailable. Showing the retrieved context instead:'' @ newline @ newline)
      @ prompt @ (newline @ newline
      @ ''Start Ollama with `ollama serve` and ensure the `llama3.2` model is installed.'')"
    by (simp add: fallback_answer_def)
  then show ?thesis by (simp only: sublist_appendI)
qed

lemma fallback_nonempty: "fallback_answer prompt \<noteq> []"
  by (simp add: fallback_answer_def)

lemma toy_embed_gamma: "toy_embed ''gamma'' = [5, 0]"
  by (simp add: toy_embed_def is_space_def)

lemma search_gamma: "search flat_search store_ab (toy_embed ''gamma'') 5 None = Inr example_sources"
  by (simp add: toy_embed_gamma search_store_ab example_sources_def)

lemma search_gamma_other_file:
  "search flat_search store_ab (toy_embed ''gamma'') 5 (Some [''c.txt'']) = Inr []"
  by (simp add: toy_embed_gamma search_def ntotal_def store_ab_def flat_search_def sq_dist_def
      py_index_def filtered_out_def truthy_def chunk_a_def chunk_b_def Let_def)

lemma example_prompt_text:
  "example_prompt =
     ''Context information from documents:'' @ newline @ ''---'' @ newline
     @ ''[Source 1: b.txt, chunk 0]'' @ newline @ ''gamma'' @ newline @ newline
     @ ''[Source 2: a.txt, chunk 0]'' @ newline @ ''alpha beta'' @ newline @ newline
     @ ''---'' @ newline @ newline @ ''Question: gamma'' @ newline @ newline
     @ ''Answer based on the context above:''"
  by (simp add: example_prompt_def example_sources_def PROMPT_TEMPLATE_def format_context_def
      str_int_def str_nat.simps newline_def)

subsection \<open>No chunk retrieved\<close>

text \<open>
  C6. When the search of the vector store gives no chunk, \<open>query\<close> returns the fixed
  answer "No relevant information found in the indexed documents." with an empty list
  of sources, and posts nothing to the language-model service.
\<close>

theorem query_no_match:
  "search faiss_search st (embed_query question) top_k active_files = Inr [] \<Longrightarrow>
   query embed_query faiss_search llm st question top_k active_files =
     (Inr \<lparr>answer = ''No relevant information found in the indexed documents.'', sources = []\<rparr>,
      [])"
  by (rule query_no_chunks)

theorem query_no_match_witness:
  "search flat_search store_ab (toy_embed ''gamma'') 5 (Some [''c.txt'']) = Inr [] \<and>
   query toy_embed flat_search no_llm store_ab ''gamma'' 5 (Some [''c.txt'']) =
     (Inr \<lparr>answer = ''No relevant information found in the indexed documents.'', sources = []\<rparr>,
      [])"
  using query_no_match [of flat_search store_ab toy_embed "''gamma''" 5 "Some [''c.txt'']" no_llm]
    search_gamma_other_file
  by simp

subsection \<open>The generation service fails\<close>

text \<open>
  C5. When a prompt that \<open>query\<close> has posted to the generation service met a failure (no
  response, or a response outside 2xx), \<open>query\<close> still returns a result: the sources are
  the list that \<open>search\<close> returned, in its order, the prompt is the template filled with
  these sources and the question, and the answer is the fallback text, which is not
  empty, begins by saying that the LLM service is unavailable, and contains the prompt
  verbatim.
\<close>

theorem query_fallback_on_llm_failure:
  assumes "prompt \<in> set (snd (query embed_query faiss_search llm st question top_k active_files))"
    and "llm_failed (llm prompt)"
  shows "\<exists>chunks.
           search faiss_search st (embed_query question) top_k active_files = Inr chunks \<and>
           prompt = PROMPT_TEMPLATE (format_context chunks) question \<and>
           fst (query embed_query faiss_search llm st question top_k active_files)
             = Inr \<lparr>answer = fallback_answer prompt, sources = chunks\<rparr> \<and>
           fallback_answer prompt \<noteq> [] \<and>
           prefix ''LLM service unavailable.'' (fallback_answer prompt) \<and>
           sublist prompt (fallback_answer prompt)"
proof (cases "search faiss_search st (embed_query question) top_k active_files")
  case (Inl e)
  with assms(1) show ?thesis by (simp add: query_error)
next
  case (Inr cs)
  show ?thesis
  proof (cases "cs = []")
    case True
    with Inr assms(1) show ?thesis by (simp add: query_no_chunks)
  next
    case False
    note q = query_chunks [of faiss_search st embed_query question top_k active_files cs llm,
        OF Inr False]
    from assms(1) have p: "prompt = PROMPT_TEMPLATE (format_context cs) question"
      by (simp add: q)
    from assms(2) have "fst (generate_answer llm prompt) = fallback_answer prompt"
      by (rule generate_answer_failed)
    with p Inr show ?thesis
      by (simp add: q fallback_prefix fallback_sublist fallback_nonempty)
  qed
qed

theorem query_fallback_on_llm_failure_witness:
  "example_prompt \<in> set (snd (query toy_embed flat_search no_llm store_ab ''gamma'' 5 None)) \<and>
   llm_failed (no_llm example_prompt) \<and>
   search flat_search store_ab (toy_embed ''gamma'') 5 None = Inr example_sources \<and>
   fst (query toy_embed flat_search no_llm store_ab ''gamma'' 5 None)
     = Inr \<lparr>answer = fallback_answer example_prompt, sources = example_sources\<rparr>"
proof -
  have ne: "example_sources \<noteq> []"
    by (simp add: example_sources_def)
  have posted: "example_prompt \<in> set (snd (query toy_embed flat_search no_llm store_ab ''gamma'' 5 None))"
    by (simp add: query_chunks [of flat_search store_ab toy_embed "''gamma''" 5 None example_sources
          no_llm, OF search_gamma ne] example_prompt_def)
  have failed: "llm_failed (no_llm example_prompt)"
    by (simp add: llm_failed_def no_llm_def)
  from query_fallback_on_llm_failure [OF posted failed] search_gamma posted failed
  show ?thesis by auto
qed

section \<open>Uploads: facts\<close>

subsection \<open>Auxiliary facts\<close>

lemma upload_unsupported:
  "str_lower w (path_suffix w fname) \<notin> set allowed_extensions \<Longrightarrow>
   upload_file w c st fname content =
     Some (HTTPException 400 (''Unsupported file type. Allowed: '' @ allowed_listing w), st)"
  by (simp add: upload_file_def Let_def)

lemma upload_empty_text:
  "str_lower w (path_suffix w fname) \<in> set allowed_extensions \<Longrightarrow>
   write_file w (uploads st) fname content = (None, files) \<Longrightarrow>
   extract_text w files fname = Inr extracted \<Longrightarrow> strip extracted = [] \<Longrightarrow>
   upload_file w c st fname content =
     Some (HTTPException 400 ''No text content found in file'', st\<lparr>uploads := files\<rparr>)"
  by (simp add: upload_file_def Let_def)

lemma suffix_blank_txt: "str_lower disk_world (path_suffix disk_world ''blank.txt'') = ''.txt''"
  by (simp add: disk_world_def last_dot_suffix_def ascii_lower_def)

lemma suffix_tool_exe: "str_lower disk_world (path_suffix disk_world ''tool.exe'') = ''.exe''"
  by (simp add: disk_world_def last_dot_suffix_def ascii_lower_def)

lemma strip_blank: "strip ''   '' = []"
  by (simp add: strip_def is_space_def)

lemma upload_blank_txt:
  "upload_file disk_world default_chunker app_ab ''blank.txt'' ''   '' =
     Some (HTTPException 400 ''No text content found in file'',
           app_ab\<lparr>uploads := (uploads app_ab)(''blank.txt'' \<mapsto> ''   '')\<rparr>)"
  by (rule upload_empty_text [where extracted = "''   ''"])
     (simp_all add: suffix_blank_txt strip_blank allowed_extensions_def,
      simp_all add: disk_world_def app_ab_def)

subsection \<open>Rejected uploads\<close>

text \<open>
  C8, as the code has it. An upload whose extension is not allowed is rejected with
  status 400 and the state is left as it was. An upload whose file was written and whose
  extracted text is empty or whitespace is rejected with status 400 as well, and the
  vector store is left as it was; the files of the uploads directory are those the
  write has left.
\<close>

theorem upload_rejections:
  "(str_lower w (path_suffix w fname) \<notin> set allowed_extensions \<longrightarrow>
      upload_file w c st fname content =
        Some (HTTPException 400 (''Unsupported file type. Allowed: '' @ allowed_listing w), st) \<and>
      client_error (HTTPException 400 (''Unsupported file type. Allowed: '' @ allowed_listing w)))
   \<and>
   (str_lower w (path_suffix w fname) \<in> set allowed_extensions \<and>
    write_file w (uploads st) fname content = (None, files) \<and>
    extract_text w files fname = Inr extracted \<and> strip extracted = [] \<longrightarrow>
      upload_file w c st fname content =
        Some (HTTPException 400 ''No text content found in file'', st\<lparr>uploads := files\<rparr>) \<and>
      client_error (HTTPException 400 ''No text content found in file'') \<and>
      vector_store (st\<lparr>uploads := files\<rparr>) = vector_store st)"
  by (simp add: upload_unsupported upload_empty_text client_error_def)

theorem upload_rejections_witness:
  "str_lower disk_world (path_suffix disk_world ''tool.exe'') \<notin> set allowed_extensions \<and>
   upload_file disk_world default_chunker app_ab ''tool.exe'' ''MZ'' =
     Some (HTTPException 400 ''Unsupported file type. Allowed: .pdf, .txt, .md, .markdown, .docx'',
           app_ab) \<and>
   str_lower disk_world (path_suffix disk_world ''blank.txt'') \<in> set allowed_extensions \<and>
   strip ''   '' = [] \<and>
   upload_file disk_world default_chunker app_ab ''blank.txt'' ''   '' =
     Some (HTTPException 400 ''No text content found in file'',
           app_ab\<lparr>uploads := (uploads app_ab)(''blank.txt'' \<mapsto> ''   '')\<rparr>) \<and>
   vector_store (app_ab\<lparr>uploads := (uploads app_ab)(''blank.txt'' \<mapsto> ''   '')\<rparr>) = store_ab"
proof -
  have exe: "str_lower disk_world (path_suffix disk_world ''tool.exe'') \<notin> set allowed_extensions"
    by (simp add: suffix_tool_exe allowed_extensions_def)
  have txt_ok: "str_lower disk_world (path_suffix disk_world ''blank.txt'') \<in> set allowed_extensions"
    by (simp add: suffix_blank_txt allowed_extensions_def)
  have written: "write_file disk_world (uploads app_ab) ''blank.txt'' ''   '' =
      (None, (uploads app_ab)(''blank.txt'' \<mapsto> ''   ''))"
    by (simp add: disk_world_def)
  have read: "extract_text disk_world ((uploads app_ab)(''blank.txt'' \<mapsto> ''   '')) ''blank.txt''
      = Inr ''   ''"
    by (simp add: disk_world_def)
  have listing: "allowed_listing disk_world = ''.pdf, .txt, .md, .markdown, .docx''"
    by (simp add: disk_world_def)
  have vs: "vector_store app_ab = store_ab"
    by (simp add: app_ab_def)
  from upload_rejections [of disk_world "''tool.exe''" default_chunker app_ab "''MZ''"] exe
  have one: "upload_file disk_world default_chunker app_ab ''tool.exe'' ''MZ'' =
      Some (HTTPException 400 ''Unsupported file type. Allowed: .pdf, .txt, .md, .markdown, .docx'',
            app_ab)"
    by (simp add: listing)
  from upload_rejections [of disk_world "''blank.txt''" default_chunker app_ab "''   ''"
      "(uploads app_ab)(''blank.txt'' \<mapsto> ''   '')" "''   ''"] txt_ok written read strip_blank
  have two: "upload_file disk_world default_chunker app_ab ''blank.txt'' ''   '' =
      Some (HTTPException 400 ''No text content found in file'',
            app_ab\<lparr>uploads := (uploads app_ab)(''blank.txt'' \<mapsto> ''   '')\<rparr>)"
    by simp
  from exe txt_ok strip_blank one two vs show ?thesis by simp
qed

text \<open>
  C8 as stated fails for the empty text: the file \<open>blank.txt\<close>, three spaces long, is
  rejected with status 400, and is in the uploads directory afterwards, where it was
  not before.
\<close>

theorem upload_empty_text_leaves_file:
  "uploads app_ab ''blank.txt'' = None \<and>
   upload_file disk_world default_chunker app_ab ''blank.txt'' ''   '' =
     Some (HTTPException 400 ''No text content found in file'',
           app_ab\<lparr>uploads := (uploads app_ab)(''blank.txt'' \<mapsto> ''   '')\<rparr>) \<and>
   uploads (app_ab\<lparr>uploads := (uploads app_ab)(''blank.txt'' \<mapsto> ''   '')\<rparr>) ''blank.txt''
     = Some ''   ''"
  by (simp add: upload_blank_txt) (simp add: app_ab_def)

section \<open>The chunker: facts\<close>

subsection \<open>Splitting and joining words\<close>

lemma is_space_blank: "is_space (CHR '' '')"
  by (simp add: is_space_def)

lemma split_from_words_ok:
  "\<forall>ch \<in> set cur. \<not> is_space ch \<Longrightarrow> \<forall>w \<in> set (split_from cur s). word_ok w"
proof (induction s arbitrary: cur)
  case Nil
  then show ?case by (simp add: word_ok_def)
next
  case (Cons ch s)
  show ?case
  proof (cases "is_space ch")
    case True
    with Cons.prems Cons.IH [of "[]"] show ?thesis by (simp add: word_ok_def)
  next
    case False
    with Cons.prems Cons.IH [of "cur @ [ch]"] show ?thesis by simp
  qed
qed

lemma split_ws_words_ok: "\<forall>w \<in> set (split_ws s). word_ok w"
  unfolding split_ws_def by (rule split_from_words_ok) simp

lemma split_from_word:
  "\<forall>ch \<in> set w. \<not> is_space ch \<Longrightarrow> split_from cur (w @ rest) = split_from (cur @ w) rest"
  by (induction w arbitrary: cur) simp_all

lemma split_join:
  "\<forall>w \<in> set wl. word_ok w \<Longrightarrow> split_ws (str_join '' '' wl) = wl"
proof (induction "'' ''" wl rule: str_join.induct)
  case 1
  show ?case by (simp add: split_ws_def)
next
  case (2 p)
  then have "split_from [] (p @ []) = split_from ([] @ p) []"
    by (intro split_from_word) (simp add: word_ok_def)
  with 2 show ?case by (simp add: split_ws_def word_ok_def)
next
  case (3 p q ps)
  from 3 have ok: "word_ok p" and rest: "\<forall>w \<in> set (q # ps). word_ok w" by simp_all
  have "split_from [] (p @ ('' '' @ str_join '' '' (q # ps)))
      = split_from ([] @ p) ('' '' @ str_join '' '' (q # ps))"
    using ok by (intro split_from_word) (simp add: word_ok_def)
  also have "\<dots> = p # split_from [] (str_join '' '' (q # ps))"
    using ok by (simp add: is_space_blank word_ok_def)
  also have "\<dots> = p # q # ps"
    using 3(1) rest by (simp add: split_ws_def)
  finally show ?case by (simp add: split_ws_def)
qed

subsection \<open>The loop: leaving, going on, never leaving\<close>

lemma py_slice_window:
  assumes "0 \<le> words_per_chunk c"
  shows "py_slice ws (int start) (int start + words_per_chunk c) = window c ws start"
proof -
  have b: "slice_bound (length ws) (int start + words_per_chunk c)
      = min (start + nat (words_per_chunk c)) (length ws)"
    using assms by (simp add: slice_bound_def nat_add_distrib)
  have a: "slice_bound (length ws) (int start) = min start (length ws)"
    by (simp add: slice_bound_def)
  have "drop (min start (length ws)) (take (min (start + nat (words_per_chunk c)) (length ws)) ws)
      = drop start (take (start + nat (words_per_chunk c)) ws)"
    by (simp add: min_def)
  also have "\<dots> = take (nat (words_per_chunk c)) (drop start ws)"
    by (simp add: drop_take)
  finally show ?thesis by (simp add: py_slice_def a b window_def)
qed

lemma chunk_loop_exit:
  "\<not> start < int (length ws) \<Longrightarrow> chunk_loop c ws fname ftype chunks ci start = Some chunks"
  by (subst chunk_loop.simps) simp

lemma chunk_loop_last:
  "start < int (length ws) \<Longrightarrow> int (length ws) \<le> start + words_per_chunk c \<Longrightarrow>
   chunk_loop c ws fname ftype chunks ci start =
     Some (chunks @ [\<lparr>text = str_join '' '' (py_slice ws start (start + words_per_chunk c)),
                      filename = fname, file_type = ftype, chunk_index = ci,
                      total_chunks = None\<rparr>])"
  by (subst chunk_loop.simps) (simp add: Let_def)

lemma chunk_loop_next:
  "start < int (length ws) \<Longrightarrow> start + words_per_chunk c < int (length ws) \<Longrightarrow>
   chunk_loop c ws fname ftype chunks ci start =
     chunk_loop c ws fname ftype
       (chunks @ [\<lparr>text = str_join '' '' (py_slice ws start (start + words_per_chunk c)),
                   filename = fname, file_type = ftype, chunk_index = ci,
                   total_chunks = None\<rparr>])
       (ci + 1) (start + step c)"
  by (subst chunk_loop.simps) (simp add: Let_def step_def)

lemma chunk_loop_terminates:
  assumes "1 \<le> step c"
  shows "\<exists>r. chunk_loop c ws fname ftype chunks ci start = Some r"
proof (induction "nat (int (length ws) - start)" arbitrary: start chunks ci rule: less_induct)
  case less
  show ?case
  proof (cases "start < int (length ws)")
    case False
    then show ?thesis by (simp add: chunk_loop_exit)
  next
    case True
    show ?thesis
    proof (cases "int (length ws) \<le> start + words_per_chunk c")
      case True
      with \<open>start < int (length ws)\<close> show ?thesis by (simp add: chunk_loop_last)
    next
      case False
      have "nat (int (length ws) - (start + step c)) < nat (int (length ws) - start)"
        using assms True by linarith
      from less [OF this] True False show ?thesis
        by (simp add: chunk_loop_next)
    qed
  qed
qed

lemma chunk_loop_diverges:
  assumes "step c \<le> 0" and "start < int (length ws)"
    and "start + words_per_chunk c < int (length ws)"
  shows "chunk_loop c ws fname ftype chunks ci start = None"
proof (cases "chunk_loop c ws fname ftype chunks ci start")
  case None
  then show ?thesis .
next
  case (Some r)
  have "\<not> (step c \<le> 0 \<and> start < int (length ws) \<and> start + words_per_chunk c < int (length ws))"
  proof (rule chunk_loop.raw_induct
      [where P = "\<lambda>c ws fname ftype chunks ci start r.
         \<not> (step c \<le> 0 \<and> start < int (length ws) \<and> start + words_per_chunk c < int (length ws))",
       OF _ Some], goal_cases)
    case (1 loop c ws fname ftype chunks ci start r)
    show ?case
    proof
      assume inv: "step c \<le> 0 \<and> start < int (length ws)
          \<and> start + words_per_chunk c < int (length ws)"
      with 1(2) obtain chunks' where
        rec: "loop c ws fname ftype chunks' (ci + 1) (start + step c) = Some r"
        by (simp add: Let_def step_def)
      from inv have "step c \<le> 0 \<and> start + step c < int (length ws)
          \<and> start + step c + words_per_chunk c < int (length ws)"
        by linarith
      with 1(1) [OF rec] show False by blast
    qed
  qed
  with assms show ?thesis by simp
qed

subsection \<open>The windows of the loop\<close>

lemma chunk_loop_windows:
  assumes W: "0 \<le> words_per_chunk c" and S1: "1 \<le> step c" and SW: "step c \<le> words_per_chunk c"
  shows "start < length ws \<Longrightarrow>
    \<exists>k\<ge>1. chunk_loop c ws fname ftype chunks (int ci) (int start) =
             Some (chunks @ map (\<lambda>j. window_chunk c ws fname ftype (int (ci + j))
                                     (start + j * nat (step c))) [0..<k]) \<and>
           (\<forall>j. j + 1 < k \<longrightarrow> start + j * nat (step c) + nat (words_per_chunk c) < length ws) \<and>
           length ws \<le> start + (k - 1) * nat (step c) + nat (words_per_chunk c)"
proof (induction "length ws - start" arbitrary: start chunks ci rule: less_induct)
  case less
  let ?S = "nat (step c)" and ?W = "nat (words_per_chunk c)"
  let ?f = "\<lambda>j. window_chunk c ws fname ftype (int (ci + j)) (start + j * ?S)"
  have here: "\<lparr>text = str_join '' '' (py_slice ws (int start) (int start + words_per_chunk c)),
               filename = fname, file_type = ftype, chunk_index = int ci, total_chunks = None\<rparr>
      = ?f 0"
    by (simp add: window_chunk_def py_slice_window [OF W])
  show ?case
  proof (cases "length ws \<le> start + ?W")
    case True
    with W have "int (length ws) \<le> int start + words_per_chunk c" by linarith
    with less.prems have "chunk_loop c ws fname ftype chunks (int ci) (int start) = Some (chunks @ [?f 0])"
      by (simp add: chunk_loop_last here)
    with True show ?thesis by (intro exI [of _ 1]) simp
  next
    case False
    with W have notend: "int start + words_per_chunk c < int (length ws)" by linarith
    from False S1 SW have next_in: "start + ?S < length ws" by linarith
    from S1 less.prems have dec: "length ws - (start + ?S) < length ws - start" by linarith
    from less.hyps [OF dec next_in, of "chunks @ [?f 0]" "Suc ci"]
    obtain k where k: "1 \<le> k"
      and res: "chunk_loop c ws fname ftype (chunks @ [?f 0]) (int (Suc ci)) (int (start + ?S)) =
        Some ((chunks @ [?f 0]) @ map (\<lambda>j. window_chunk c ws fname ftype (int (Suc ci + j))
                                     (start + ?S + j * ?S)) [0..<k])"
      and before: "\<forall>j. j + 1 < k \<longrightarrow> start + ?S + j * ?S + ?W < length ws"
      and last: "length ws \<le> start + ?S + (k - 1) * ?S + ?W"
      by blast
    have shift: "int (Suc ci) = int ci + 1" "int (start + ?S) = int start + step c"
      using S1 by simp_all
    have fe: "(\<lambda>j. window_chunk c ws fname ftype (int (Suc ci + j)) (start + ?S + j * ?S))
        = (\<lambda>j. ?f (Suc j))"
      by (simp add: add.assoc)
    have "chunk_loop c ws fname ftype chunks (int ci) (int start) =
        chunk_loop c ws fname ftype (chunks @ [?f 0]) (int ci + 1) (int start + step c)"
      using less.prems notend by (simp add: chunk_loop_next here)
    also have "\<dots> = Some ((chunks @ [?f 0]) @ map (\<lambda>j. ?f (Suc j)) [0..<k])"
      using res unfolding fe shift .
    also have "(chunks @ [?f 0]) @ map (\<lambda>j. ?f (Suc j)) [0..<k] = chunks @ map ?f [0..<Suc k]"
      by (simp only: map_upt_Suc append_assoc append_Cons append_Nil)
    finally have eq: "chunk_loop c ws fname ftype chunks (int ci) (int start)
        = Some (chunks @ map ?f [0..<Suc k])" .
    have b: "\<forall>j. j + 1 < Suc k \<longrightarrow> start + j * ?S + ?W < length ws"
    proof (intro allI impI)
      fix j assume j: "j + 1 < Suc k"
      show "start + j * ?S + ?W < length ws"
      proof (cases j)
        case 0
        with False show ?thesis by simp
      next
        case (Suc j')
        with j before have "start + ?S + j' * ?S + ?W < length ws" by simp
        with Suc show ?thesis by (simp add: add.assoc)
      qed
    qed
    from k obtain k' where k': "k = Suc k'" by (cases k) simp_all
    from last have l: "length ws \<le> start + (Suc k - 1) * ?S + ?W"
      by (simp add: k' add.assoc)
    from eq b l show ?thesis by (intro exI [of _ "Suc k"]) simp
  qed
qed

lemma window_length_full:
  "start + nat (words_per_chunk c) \<le> length ws \<Longrightarrow>
   length (window c ws start) = nat (words_per_chunk c)"
  by (simp add: window_def)

lemma window_overlap:
  assumes "0 \<le> words_overlap c" and "words_overlap c \<le> words_per_chunk c"
  shows "drop (nat (step c)) (window c ws start)
       = take (nat (words_overlap c)) (window c ws (start + nat (step c)))"
proof -
  have "nat (words_per_chunk c) - nat (step c) = nat (words_overlap c)"
    using assms by (simp add: step_def)
  then have "drop (nat (step c)) (window c ws start)
      = take (nat (words_overlap c)) (drop (start + nat (step c)) ws)"
    by (simp add: window_def drop_take add.commute)
  moreover have "take (nat (words_overlap c)) (window c ws (start + nat (step c)))
      = take (nat (words_overlap c)) (drop (start + nat (step c)) ws)"
    using assms by (simp add: window_def min_def)
  ultimately show ?thesis by simp
qed

lemma window_overlap_length:
  assumes "0 \<le> words_overlap c" and "words_overlap c \<le> words_per_chunk c"
    and "start + nat (words_per_chunk c) \<le> length ws"
  shows "length (drop (nat (step c)) (window c ws start)) = nat (words_overlap c)"
  using assms by (simp add: window_def step_def)

lemma windows_reconstruct:
  assumes "0 \<le> words_overlap c" and "words_overlap c \<le> words_per_chunk c"
  shows "window c ws 0 @ concat (map (\<lambda>i. drop (nat (words_overlap c)) (window c ws (i * nat (step c))))
                                    [1..<Suc k])
       = take (k * nat (step c) + nat (words_per_chunk c)) ws"
proof (induction k)
  case 0
  show ?case by (simp add: window_def)
next
  case (Suc k)
  let ?S = "nat (step c)" and ?W = "nat (words_per_chunk c)" and ?O = "nat (words_overlap c)"
  have SO: "?S + ?O = ?W" using assms by (simp add: step_def)
  have "drop ?O (window c ws (Suc k * ?S)) = take (?W - ?O) (drop (Suc k * ?S + ?O) ws)"
    by (simp add: window_def drop_take add.commute)
  also have "?W - ?O = ?S" using SO by simp
  also have "Suc k * ?S + ?O = k * ?S + ?W" using SO by simp
  finally have piece: "drop ?O (window c ws (Suc k * ?S)) = take ?S (drop (k * ?S + ?W) ws)" .
  have tk: "take (k * ?S + ?W) ws @ take ?S (drop (k * ?S + ?W) ws) = take (Suc k * ?S + ?W) ws"
    by (simp add: take_add [symmetric] add.commute add.left_commute)
  let ?g = "\<lambda>i. drop ?O (window c ws (i * ?S))"
  have "window c ws 0 @ concat (map ?g [1..<Suc (Suc k)])
      = (window c ws 0 @ concat (map ?g [1..<Suc k])) @ ?g (Suc k)"
    by (simp del: upt_Suc add: upt_Suc_append)
  also have "\<dots> = take (k * ?S + ?W) ws @ take ?S (drop (k * ?S + ?W) ws)"
    by (simp only: Suc.IH piece)
  finally show ?case by (simp only: tk)
qed

lemma window_words_ok: "\<forall>w \<in> set ws. word_ok w \<Longrightarrow> \<forall>w \<in> set (window c ws start). word_ok w"
  unfolding window_def by (meson in_set_dropD in_set_takeD)

subsection \<open>chunk\_text\<close>

lemma chunk_text_short:
  "int (length (split_ws (clean_text raw_text))) \<le> words_per_chunk c \<Longrightarrow>
   chunk_text c raw_text fname ftype =
     Some [\<lparr>text = clean_text raw_text, filename = fname, file_type = ftype,
            chunk_index = 0, total_chunks = Some 1\<rparr>]"
  by (simp add: chunk_text_def Let_def)

lemma chunk_text_long:
  "words_per_chunk c < int (length (split_ws (clean_text raw_text))) \<Longrightarrow>
   chunk_text c raw_text fname ftype =
     (case chunk_loop c (split_ws (clean_text raw_text)) fname ftype [] 0 0 of
        None \<Rightarrow> None
      | Some chunks \<Rightarrow> Some (map (\<lambda>ch. ch\<lparr>total_chunks := Some (int (length chunks))\<rparr>) chunks))"
  by (simp add: chunk_text_def Let_def)

lemma chunk_text_terminates:
  assumes "1 \<le> step c"
  shows "\<exists>chunks. chunk_text c raw_text fname ftype = Some chunks"
proof (cases "int (length (split_ws (clean_text raw_text))) \<le> words_per_chunk c")
  case True
  then show ?thesis by (simp add: chunk_text_short)
next
  case False
  from chunk_loop_terminates [OF assms, of "split_ws (clean_text raw_text)" fname ftype "[]" 0 0]
  obtain r where "chunk_loop c (split_ws (clean_text raw_text)) fname ftype [] 0 0 = Some r" ..
  with False show ?thesis by (simp add: chunk_text_long)
qed

lemma chunk_text_diverges:
  assumes "step c \<le> 0" and "words_per_chunk c < int (length (split_ws (clean_text raw_text)))"
    and "0 < length (split_ws (clean_text raw_text))"
  shows "chunk_text c raw_text fname ftype = None"
proof -
  have "chunk_loop c (split_ws (clean_text raw_text)) fname ftype [] 0 0 = None"
    using assms by (intro chunk_loop_diverges) simp_all
  with assms(2) show ?thesis by (simp add: chunk_text_long)
qed

lemma chunk_text_shape:
  fixes c raw_text
  defines "ws \<equiv> split_ws (clean_text raw_text)"
  assumes O: "0 \<le> words_overlap c" and OW: "words_overlap c < words_per_chunk c"
    and long: "words_per_chunk c < int (length ws)"
  shows "\<exists>n. chunk_text c raw_text fname ftype = Some (map (final_chunk c ws fname ftype n) [0..<n]) \<and>
           2 \<le> n \<and>
           (\<forall>i. i + 1 < n \<longrightarrow> i * nat (step c) + nat (words_per_chunk c) < length ws) \<and>
           length ws \<le> (n - 1) * nat (step c) + nat (words_per_chunk c)"
proof -
  have W: "0 \<le> words_per_chunk c" and S1: "1 \<le> step c" and SW: "step c \<le> words_per_chunk c"
    using O OW by (simp_all add: step_def)
  from long W have pos: "0 < length ws" by linarith
  from chunk_loop_windows [OF W S1 SW pos, of fname ftype "[]" 0]
  obtain k where k: "1 \<le> k"
    and res: "chunk_loop c ws fname ftype [] 0 0 =
        Some (map (\<lambda>j. window_chunk c ws fname ftype (int j) (j * nat (step c))) [0..<k])"
    and before: "\<forall>j. j + 1 < k \<longrightarrow> j * nat (step c) + nat (words_per_chunk c) < length ws"
    and last: "length ws \<le> (k - 1) * nat (step c) + nat (words_per_chunk c)"
    by auto
  have fin: "map (\<lambda>ch. ch\<lparr>total_chunks := Some (int k)\<rparr>)
        (map (\<lambda>j. window_chunk c ws fname ftype (int j) (j * nat (step c))) [0..<k])
      = map (final_chunk c ws fname ftype k) [0..<k]"
    by (simp add: window_chunk_def final_chunk_def)
  have "chunk_text c raw_text fname ftype = Some (map (final_chunk c ws fname ftype k) [0..<k])"
    using long res fin unfolding ws_def by (simp add: chunk_text_long)
  moreover have "2 \<le> k"
  proof (rule ccontr)
    assume "\<not> 2 \<le> k"
    with k have "k = 1" by simp
    with last long W show False by simp
  qed
  ultimately show ?thesis using before last by blast
qed

lemma words_abcd: "split_ws (clean_text ''a b c d'') = [''a'', ''b'', ''c'', ''d'']"
  by (simp add: clean_text_def strip_def split_ws_def is_space_def)

lemma words_abcdefg:
  "split_ws (clean_text ''a b c d e f g'') = [''a'', ''b'', ''c'', ''d'', ''e'', ''f'', ''g'']"
  by (simp add: clean_text_def strip_def split_ws_def is_space_def)

lemma words_abcdef:
  "split_ws (clean_text ''a b c d e f'') = [''a'', ''b'', ''c'', ''d'', ''e'', ''f'']"
  by (simp add: clean_text_def strip_def split_ws_def is_space_def)

lemma chunker_4_4: "TextChunker 4 4 = \<lparr>chunk_size = 4, overlap = 4, words_per_chunk = 3, words_overlap = 3\<rparr>"
  by (simp add: TextChunker_def int_three_quarters_def)

lemma chunker_4_2: "TextChunker 4 2 = \<lparr>chunk_size = 4, overlap = 2, words_per_chunk = 3, words_overlap = 1\<rparr>"
  by (simp add: TextChunker_def int_three_quarters_def)

lemma chunker_4_neg: "TextChunker 4 (- 4) = \<lparr>chunk_size = 4, overlap = - 4, words_per_chunk = 3, words_overlap = - 3\<rparr>"
  by (simp add: TextChunker_def int_three_quarters_def)

lemma diverge_ex: "chunk_text (TextChunker 4 4) ''a b c d'' ''f.txt'' ''txt'' = None"
  by (rule chunk_text_diverges) (simp_all add: words_abcd chunker_4_4 step_def)

lemma gap_ex:
  "chunk_text (TextChunker 4 (- 4)) ''a b c d e f g'' ''f.txt'' ''txt'' =
     Some [\<lparr>text = ''a b c'', filename = ''f.txt'', file_type = ''txt'', chunk_index = 0,
            total_chunks = Some 2\<rparr>,
           \<lparr>text = ''g'', filename = ''f.txt'', file_type = ''txt'', chunk_index = 1,
            total_chunks = Some 2\<rparr>]"
proof -
  let ?c = "TextChunker 4 (- 4)"
  let ?ws = "[''a'', ''b'', ''c'', ''d'', ''e'', ''f'', ''g'']"
  have c: "words_per_chunk ?c = 3" "step ?c = 6"
    by (simp_all add: chunker_4_neg step_def)
  have "chunk_loop ?c ?ws ''f.txt'' ''txt'' [] 0 0 =
      chunk_loop ?c ?ws ''f.txt'' ''txt''
        [\<lparr>text = ''a b c'', filename = ''f.txt'', file_type = ''txt'', chunk_index = 0,
          total_chunks = None\<rparr>] 1 6"
    by (subst chunk_loop_next) (simp_all add: c py_slice_def slice_bound_def)
  also have "\<dots> =
      Some [\<lparr>text = ''a b c'', filename = ''f.txt'', file_type = ''txt'', chunk_index = 0,
             total_chunks = None\<rparr>,
            \<lparr>text = ''g'', filename = ''f.txt'', file_type = ''txt'', chunk_index = 1,
             total_chunks = None\<rparr>]"
    by (subst chunk_loop_last) (simp_all add: c py_slice_def slice_bound_def)
  finally show ?thesis
    by (simp add: chunk_text_long words_abcdefg c)
qed

lemma chunks_abcdef_shape:
  assumes "chunk_text (TextChunker 4 2) ''a b c d e f'' ''f.txt'' ''txt''
      = Some (map (final_chunk (TextChunker 4 2) [''a'', ''b'', ''c'', ''d'', ''e'', ''f''] ''f.txt'' ''txt'' n) [0..<n])"
    and "\<forall>i. i + 1 < n \<longrightarrow> i * 2 + 3 < (6::nat)"
    and "(6::nat) \<le> (n - 1) * 2 + 3"
  shows "chunk_text (TextChunker 4 2) ''a b c d e f'' ''f.txt'' ''txt'' =
     Some [\<lparr>text = ''a b c'', filename = ''f.txt'', file_type = ''txt'', chunk_index = 0,
            total_chunks = Some 3\<rparr>,
           \<lparr>text = ''c d e'', filename = ''f.txt'', file_type = ''txt'', chunk_index = 1,
            total_chunks = Some 3\<rparr>,
           \<lparr>text = ''e f'', filename = ''f.txt'', file_type = ''txt'', chunk_index = 2,
            total_chunks = Some 3\<rparr>]"
proof -
  from assms(2) [rule_format, of 2] have "\<not> 3 < n" by auto
  then have "n \<le> 3" by simp
  moreover from assms(3) have "3 \<le> n" by simp
  ultimately have n: "n = 3" by simp
  have up: "[0..<3] = [0, 1, 2]" by (simp add: upt_rec)
  show ?thesis unfolding assms(1) n up
    by (simp add: final_chunk_def window_def chunker_4_2 step_def)
qed

subsection \<open>The sliding windows\<close>

text \<open>
  C4, as the code has it. Let the overlap in words be at least 0 and less than the chunk
  width in words, and let the normalised text have more words than one chunk holds.
  Then \<open>chunk_text\<close> returns \<open>n\<close> chunks, at least two, for the windows at the offsets
  \<open>0, step, 2 * step, ...\<close>: every window but the last ends before the last word and the
  last one reaches it; the words of the \<open>i\<close>-th chunk are the window at \<open>i * step\<close>, its
  \<open>chunk_index\<close> is \<open>i\<close> and its \<open>total_chunks\<close> is \<open>n\<close>; every chunk but the last has exactly
  \<open>words_per_chunk\<close> words; the last \<open>words_overlap\<close> words of a chunk are the first
  \<open>words_overlap\<close> words of the next; and the first chunk followed by every later chunk
  without its first \<open>words_overlap\<close> words is the original sequence of words.
\<close>

theorem chunk_text_sliding_windows:
  fixes c :: chunker and raw_text :: string
  defines "ws \<equiv> split_ws (clean_text raw_text)"
  defines "W \<equiv> nat (words_per_chunk c)" and "V \<equiv> nat (words_overlap c)" and "S \<equiv> nat (step c)"
  assumes "0 \<le> words_overlap c" and "words_overlap c < words_per_chunk c"
    and "words_per_chunk c < int (length ws)"
  shows "\<exists>n. chunk_text c raw_text fname ftype = Some (map (final_chunk c ws fname ftype n) [0..<n]) \<and>
           2 \<le> n \<and>
           (\<forall>i. i + 1 < n \<longrightarrow> i * S + W < length ws) \<and>
           length ws \<le> (n - 1) * S + W \<and>
           (\<forall>i < n. split_ws (text (final_chunk c ws fname ftype n i)) = window c ws (i * S)) \<and>
           (\<forall>i. i + 1 < n \<longrightarrow> length (window c ws (i * S)) = W) \<and>
           (\<forall>i. i + 1 < n \<longrightarrow>
              drop S (window c ws (i * S)) = take V (window c ws (Suc i * S)) \<and>
              length (drop S (window c ws (i * S))) = V) \<and>
           window c ws 0 @ concat (map (\<lambda>i. drop V (window c ws (i * S))) [1..<n]) = ws"
proof -
  have VW: "words_overlap c \<le> words_per_chunk c" using assms by simp
  from chunk_text_shape [OF assms(5,6) assms(7) [unfolded ws_def], of fname ftype]
  obtain n where res: "chunk_text c raw_text fname ftype
        = Some (map (final_chunk c ws fname ftype n) [0..<n])"
    and n2: "2 \<le> n"
    and before: "\<forall>i. i + 1 < n \<longrightarrow> i * S + W < length ws"
    and last: "length ws \<le> (n - 1) * S + W"
    unfolding ws_def W_def S_def by blast
  have ok: "\<forall>w \<in> set ws. word_ok w"
    unfolding ws_def by (rule split_ws_words_ok)
  have words: "\<forall>i < n. split_ws (text (final_chunk c ws fname ftype n i)) = window c ws (i * S)"
    using window_words_ok [OF ok] by (simp add: final_chunk_def S_def split_join)
  have full: "\<forall>i. i + 1 < n \<longrightarrow> length (window c ws (i * S)) = W"
  proof (intro allI impI)
    fix i assume "i + 1 < n"
    with before have "i * S + W \<le> length ws" by (simp add: less_imp_le)
    then show "length (window c ws (i * S)) = W"
      unfolding W_def by (rule window_length_full)
  qed
  have shared: "\<forall>i. i + 1 < n \<longrightarrow>
      drop S (window c ws (i * S)) = take V (window c ws (Suc i * S)) \<and>
      length (drop S (window c ws (i * S))) = V"
  proof (intro allI impI)
    fix i assume "i + 1 < n"
    with before have "i * S + W \<le> length ws" by (simp add: less_imp_le)
    then have "length (drop S (window c ws (i * S))) = V"
      unfolding S_def V_def W_def by (rule window_overlap_length [OF assms(5) VW])
    moreover have "drop S (window c ws (i * S)) = take V (window c ws (Suc i * S))"
      using window_overlap [OF assms(5) VW, of ws "i * S"] by (simp add: S_def V_def add.commute)
    ultimately show "drop S (window c ws (i * S)) = take V (window c ws (Suc i * S)) \<and>
      length (drop S (window c ws (i * S))) = V" by simp
  qed
  from n2 obtain m where m: "n = Suc m" by (cases n) simp_all
  have "window c ws 0 @ concat (map (\<lambda>i. drop V (window c ws (i * S))) [1..<n])
      = take ((n - 1) * S + W) ws"
    using windows_reconstruct [OF assms(5) VW, of ws m] by (simp add: m S_def V_def W_def)
  with last have whole: "window c ws 0 @ concat (map (\<lambda>i. drop V (window c ws (i * S))) [1..<n]) = ws"
    by simp
  from res n2 before last words full shared whole show ?thesis by blast
qed


lemma chunks_abcdef:
  "chunk_text (TextChunker 4 2) ''a b c d e f'' ''f.txt'' ''txt'' =
     Some [\<lparr>text = ''a b c'', filename = ''f.txt'', file_type = ''txt'', chunk_index = 0,
            total_chunks = Some 3\<rparr>,
           \<lparr>text = ''c d e'', filename = ''f.txt'', file_type = ''txt'', chunk_index = 1,
            total_chunks = Some 3\<rparr>,
           \<lparr>text = ''e f'', filename = ''f.txt'', file_type = ''txt'', chunk_index = 2,
            total_chunks = Some 3\<rparr>]"
proof -
  from chunk_text_shape [of "TextChunker 4 2" "''a b c d e f''" "''f.txt''" "''txt''"]
  obtain n where
    "chunk_text (TextChunker 4 2) ''a b c d e f'' ''f.txt'' ''txt''
      = Some (map (final_chunk (TextChunker 4 2) [''a'', ''b'', ''c'', ''d'', ''e'', ''f'']
                     ''f.txt'' ''txt'' n) [0..<n])"
    "\<forall>i. i + 1 < n \<longrightarrow> i * 2 + 3 < (6::nat)" "(6::nat) \<le> (n - 1) * 2 + 3"
    by (auto simp: chunker_4_2 words_abcdef step_def)
  then show ?thesis by (rule chunks_abcdef_shape)
qed

subsection \<open>Termination\<close>

text \<open>
  C3, as the code has it. \<open>TextChunker\<close> checks nothing when it is built; whenever the
  step \<open>words_per_chunk - words_overlap\<close> of a chunker is at least 1, \<open>chunk_text\<close> returns
  for every input text.
\<close>

theorem chunk_text_terminates_for_positive_step:
  "1 \<le> step c \<Longrightarrow> \<exists>chunks. chunk_text c raw_text fname ftype = Some chunks"
  by (rule chunk_text_terminates)

theorem chunk_text_terminates_for_positive_step_witness:
  "1 \<le> step (TextChunker 4 2) \<and>
   chunk_text (TextChunker 4 2) ''a b c d e f'' ''f.txt'' ''txt'' =
     Some [\<lparr>text = ''a b c'', filename = ''f.txt'', file_type = ''txt'', chunk_index = 0,
            total_chunks = Some 3\<rparr>,
           \<lparr>text = ''c d e'', filename = ''f.txt'', file_type = ''txt'', chunk_index = 1,
            total_chunks = Some 3\<rparr>,
           \<lparr>text = ''e f'', filename = ''f.txt'', file_type = ''txt'', chunk_index = 2,
            total_chunks = Some 3\<rparr>]"
proof -
  have pos: "1 \<le> step (TextChunker 4 2)"
    by (simp add: chunker_4_2 step_def)
  from chunk_text_terminates_for_positive_step [OF pos, of "''a b c d e f''" "''f.txt''" "''txt''"]
  obtain chunks where "chunk_text (TextChunker 4 2) ''a b c d e f'' ''f.txt'' ''txt'' = Some chunks" ..
  with pos chunks_abcdef show ?thesis by simp
qed

text \<open>
  C3 as stated fails: a chunker with overlap equal to the chunk size is built like any
  other, its step is 0, and on a text of four words the loop of \<open>chunk_text\<close> never leaves.
\<close>

theorem chunk_text_loops_without_validation:
  "overlap (TextChunker 4 4) = chunk_size (TextChunker 4 4) \<and>
   words_per_chunk (TextChunker 4 4) - words_overlap (TextChunker 4 4) = 0 \<and>
   chunk_text (TextChunker 4 4) ''a b c d'' ''f.txt'' ''txt'' = None"
  using diverge_ex by (simp add: chunker_4_4)

theorem chunk_text_sliding_windows_witness:
  "0 \<le> words_overlap (TextChunker 4 2) \<and>
   words_overlap (TextChunker 4 2) < words_per_chunk (TextChunker 4 2) \<and>
   words_per_chunk (TextChunker 4 2) < int (length (split_ws (clean_text ''a b c d e f''))) \<and>
   chunk_text (TextChunker 4 2) ''a b c d e f'' ''f.txt'' ''txt'' =
     Some [\<lparr>text = ''a b c'', filename = ''f.txt'', file_type = ''txt'', chunk_index = 0,
            total_chunks = Some 3\<rparr>,
           \<lparr>text = ''c d e'', filename = ''f.txt'', file_type = ''txt'', chunk_index = 1,
            total_chunks = Some 3\<rparr>,
           \<lparr>text = ''e f'', filename = ''f.txt'', file_type = ''txt'', chunk_index = 2,
            total_chunks = Some 3\<rparr>]"
proof -
  have h1: "0 \<le> words_overlap (TextChunker 4 2)"
    and h2: "words_overlap (TextChunker 4 2) < words_per_chunk (TextChunker 4 2)"
    and h3: "words_per_chunk (TextChunker 4 2) < int (length (split_ws (clean_text ''a b c d e f'')))"
    by (simp_all add: chunker_4_2 words_abcdef)
  from chunk_text_sliding_windows [OF h1 h2 h3, of "''f.txt''" "''txt''"]
  obtain n where
    "chunk_text (TextChunker 4 2) ''a b c d e f'' ''f.txt'' ''txt''
      = Some (map (final_chunk (TextChunker 4 2) [''a'', ''b'', ''c'', ''d'', ''e'', ''f'']
                     ''f.txt'' ''txt'' n) [0..<n])"
    "\<forall>i. i + 1 < n \<longrightarrow> i * 2 + 3 < (6::nat)" "(6::nat) \<le> (n - 1) * 2 + 3"
    by (auto simp: chunker_4_2 words_abcdef step_def)
  then have "chunk_text (TextChunker 4 2) ''a b c d e f'' ''f.txt'' ''txt'' =
     Some [\<lparr>text = ''a b c'', filename = ''f.txt'', file_type = ''txt'', chunk_index = 0,
            total_chunks = Some 3\<rparr>,
           \<lparr>text = ''c d e'', filename = ''f.txt'', file_type = ''txt'', chunk_index = 1,
            total_chunks = Some 3\<rparr>,
           \<lparr>text = ''e f'', filename = ''f.txt'', file_type = ''txt'', chunk_index = 2,
            total_chunks = Some 3\<rparr>]"
    by (rule chunks_abcdef_shape)
  with h1 h2 h3 show ?thesis by simp
qed

text \<open>
  C4 as stated fails for a negative overlap: with a width of 3 words and an overlap of
  -3 the step is 6, and a text of seven words gives the two chunks \<open>a b c\<close> and \<open>g\<close>; the
  words \<open>d e f\<close> are in no chunk.
\<close>

theorem chunk_text_negative_overlap_gap:
  "1 \<le> words_per_chunk (TextChunker 4 (- 4)) - words_overlap (TextChunker 4 (- 4)) \<and>
   words_overlap (TextChunker 4 (- 4)) = - 3 \<and>
   split_ws (clean_text ''a b c d e f g'') = [''a'', ''b'', ''c'', ''d'', ''e'', ''f'', ''g''] \<and>
   words_per_chunk (TextChunker 4 (- 4)) < int (length (split_ws (clean_text ''a b c d e f g''))) \<and>
   chunk_text (TextChunker 4 (- 4)) ''a b c d e f g'' ''f.txt'' ''txt'' =
     Some [\<lparr>text = ''a b c'', filename = ''f.txt'', file_type = ''txt'', chunk_index = 0,
            total_chunks = Some 2\<rparr>,
           \<lparr>text = ''g'', filename = ''f.txt'', file_type = ''txt'', chunk_index = 1,
            total_chunks = Some 2\<rparr>]"
  using gap_ex by (simp add: chunker_4_neg words_abcdefg)

text \<open>
  The example of a text of 1000 words with the default sizes: windows of 375 words,
  75 shared, 300 apart, four chunks.
\<close>

lemma end_to_end_example:
  assumes "length (split_ws (clean_text raw_text)) = 1000"
  shows "words_per_chunk (TextChunker 500 100) = 375 \<and> words_overlap (TextChunker 500 100) = 75 \<and>
         step (TextChunker 500 100) = 300 \<and>
         chunk_text (TextChunker 500 100) raw_text fname ftype =
           Some (map (final_chunk (TextChunker 500 100) (split_ws (clean_text raw_text))
                        fname ftype 4) [0..<4])"
proof -
  have c: "words_per_chunk (TextChunker 500 100) = 375" "words_overlap (TextChunker 500 100) = 75"
    "step (TextChunker 500 100) = 300"
    by (simp_all add: TextChunker_def int_three_quarters_def step_def)
  from chunk_text_shape [of "TextChunker 500 100" raw_text fname ftype] assms
  obtain n where res: "chunk_text (TextChunker 500 100) raw_text fname ftype
      = Some (map (final_chunk (TextChunker 500 100) (split_ws (clean_text raw_text))
                     fname ftype n) [0..<n])"
    and before: "\<forall>i. i + 1 < n \<longrightarrow> i * 300 + 375 < (1000::nat)"
    and last: "(1000::nat) \<le> (n - 1) * 300 + 375"
    by (auto simp: c)
  from before [rule_format, of 3] have "\<not> 4 < n" by auto
  moreover from last have "4 \<le> n" by simp
  ultimately have "n = 4" by simp
  with res c show ?thesis by simp
qed

end
